theory Spec2Isabelle
  imports Complex_Main
begin

section \<open>Numbers\<close>

text \<open>
  The entries of the Q-table, the rewards and the learning parameters are Python numbers:
  ints (\<^verbatim>\<open>[0,0,0,0,0]\<close>, \<^verbatim>\<open>-10\<close>, \<^verbatim>\<open>epsilon = 0\<close>) and floats (\<^verbatim>\<open>0.1\<close>, \<^verbatim>\<open>0.6\<close>, every
  value the update writes). A number is modelled by the real number it denotes, so that
  comparison, \<^verbatim>\<open>max\<close> and \<^verbatim>\<open>list.index\<close> are the exact ones of Python.

  Arithmetic with a float operand is binary64 arithmetic: each operand is converted to
  binary64, the exact result is rounded to the nearest binary64 value, ties to the even
  significand. \<open>fl\<close> is that rounding: 53 significant bits, with the exponent range taken
  unbounded (no overflow to infinity, no subnormal numbers; NaN is not a value of the model).
\<close>

fun bitlen :: "nat \<Rightarrow> nat" where
  "bitlen n = (if n = 0 then 0 else Suc (bitlen (n div 2)))"

declare bitlen.simps [simp del]

text \<open>The binary exponent of a positive number: \<open>2 ^ expo x \<le> x < 2 ^ (expo x + 1)\<close>.\<close>

definition expo :: "real \<Rightarrow> int" where
  "expo x = (if 1 \<le> x then int (bitlen (nat \<lfloor>x\<rfloor>)) - 1
             else - int (bitlen (nat (\<lceil>1 / x\<rceil> - 1))))"

definition pow2 :: "int \<Rightarrow> real" where
  "pow2 e = (if 0 \<le> e then 2 ^ nat e else 1 / 2 ^ nat (- e))"

text \<open>Rounding to the nearest integer, a tie to the even one.\<close>

definition rne :: "real \<Rightarrow> int" where
  "rne m = (let n = \<lfloor>m\<rfloor>; f = m - of_int n
            in if f < 1 / 2 then n else if 1 / 2 < f then n + 1
               else if even n then n else n + 1)"

definition fl :: "real \<Rightarrow> real" where
  "fl x = (if x = 0 then 0
           else let u = pow2 (expo \<bar>x\<bar> - 52)
                in sgn x * of_int (rne (\<bar>x\<bar> / u)) * u)"

definition fadd :: "real \<Rightarrow> real \<Rightarrow> real" where
  "fadd x y = fl (fl x + fl y)"

definition fsub :: "real \<Rightarrow> real \<Rightarrow> real" where
  "fsub x y = fl (fl x - fl y)"

definition fmul :: "real \<Rightarrow> real \<Rightarrow> real" where
  "fmul x y = fl (fl x * fl y)"

section \<open>Errors and Python helpers\<close>

datatype error =
    Exception string
  | KeyError
  | IndexError
  | ValueError
  | TypeError
  | AttributeError
  | UnboundLocalError

text \<open>\<^verbatim>\<open>x or '_'\<close> on a value that is a string or None: None and the empty string are falsy.\<close>

definition py_or :: "string option \<Rightarrow> string \<Rightarrow> string" where
  "py_or v d = (case v of None \<Rightarrow> d | Some s \<Rightarrow> if s = [] then d else s)"

definition truthy :: "string option \<Rightarrow> bool" where
  "truthy v = (case v of None \<Rightarrow> False | Some s \<Rightarrow> s \<noteq> [])"

text \<open>\<^verbatim>\<open>max(xs)\<close>: ValueError on the empty list.\<close>

definition py_max :: "real list \<Rightarrow> error + real" where
  "py_max xs = (case xs of [] \<Rightarrow> Inl ValueError | x # ys \<Rightarrow> Inr (foldl max x ys))"

text \<open>\<^verbatim>\<open>xs.index(v)\<close>: the first position holding \<open>v\<close>, ValueError when there is none.\<close>

fun py_index :: "real list \<Rightarrow> real \<Rightarrow> error + nat" where
  "py_index [] v = Inl ValueError"
| "py_index (x # xs) v =
     (if x = v then Inr 0
      else (case py_index xs v of Inl e \<Rightarrow> Inl e | Inr i \<Rightarrow> Inr (Suc i)))"

section \<open>The game state\<close>

text \<open>
  Modelled from the spec: the class \<^verbatim>\<open>State\<close> (module \<^verbatim>\<open>state\<close>) is not part of the
  sources. Of it the agent reads the frog's position, the cell accessor \<^verbatim>\<open>get(x, y)\<close>
  (a symbol, or None for an empty or off-grid cell), the flags \<^verbatim>\<open>at_goal\<close> and
  \<^verbatim>\<open>is_done\<close>, the \<^verbatim>\<open>score\<close>, and the action list, which the comment in
  \<^verbatim>\<open>actionToIndex\<close> gives as \<^verbatim>\<open>['u', 'd', 'l', 'r', '_']\<close>. The constructor
  \<^verbatim>\<open>State(string)\<close> is a parameter \<open>State_init\<close> of the functions that call it.
\<close>

type_synonym action = string

definition ACTIONS :: "action list" where
  "ACTIONS = [''u'', ''d'', ''l'', ''r'', ''_'']"

record state =
  frog_x :: int
  frog_y :: int
  get :: "int \<Rightarrow> int \<Rightarrow> string option"
  at_goal :: bool
  is_done :: bool
  score :: real

record q_state = state +
  key :: string

definition compute_key :: "'a state_scheme \<Rightarrow> string" where
  "compute_key self = concat [
     py_or (get self (frog_x self - 2) (frog_y self - 1)) ''_'',
     py_or (get self (frog_x self - 1) (frog_y self - 1)) ''_'',
     py_or (get self (frog_x self) (frog_y self - 1)) ''_'',
     py_or (get self (frog_x self + 1) (frog_y self - 1)) ''_'',
     py_or (get self (frog_x self + 2) (frog_y self - 1)) ''_'',
     py_or (get self (frog_x self - 2) (frog_y self - 2)) ''_'',
     py_or (get self (frog_x self - 1) (frog_y self - 2)) ''_'',
     py_or (get self (frog_x self) (frog_y self - 2)) ''_'',
     py_or (get self (frog_x self + 1) (frog_y self - 2)) ''_'',
     py_or (get self (frog_x self + 2) (frog_y self - 2)) ''_'',
     py_or (get self (frog_x self - 2) (frog_y self)) ''_'',
     py_or (get self (frog_x self - 1) (frog_y self)) ''_'',
     py_or (get self (frog_x self) (frog_y self)) ''_'',
     py_or (get self (frog_x self + 1) (frog_y self)) ''_'',
     py_or (get self (frog_x self + 2) (frog_y self)) ''_'',
     py_or (get self (frog_x self - 2) (frog_y self + 1)) ''_'',
     py_or (get self (frog_x self - 1) (frog_y self + 1)) ''_'',
     py_or (get self (frog_x self) (frog_y self + 1)) ''_'',
     py_or (get self (frog_x self + 1) (frog_y self + 1)) ''_'',
     py_or (get self (frog_x self + 2) (frog_y self + 1)) ''_'']"

definition Q_State :: "(string \<Rightarrow> state) \<Rightarrow> string \<Rightarrow> q_state" where
  "Q_State State_init string =
     (let self = State_init string
      in \<lparr>frog_x = frog_x self, frog_y = frog_y self, get = get self,
          at_goal = at_goal self, is_done = is_done self, score = score self,
          key = compute_key self\<rparr>)"

definition reward :: "'a state_scheme \<Rightarrow> real" where
  "reward self = (if at_goal self then score self
                  else if is_done self then - 10
                  else 0)"

section \<open>The agent\<close>

type_synonym qtable = "string \<rightharpoonup> real list"

text \<open>
  The agent object. \<open>files\<close> of \<open>world\<close> is the part of the file system the agent reads
  and writes: a path holds the table that \<^verbatim>\<open>json.dump\<close> wrote there, or nothing.
  \<open>stdout\<close> collects what \<^verbatim>\<open>print\<close> writes.
\<close>

record agent =
  train :: "string option"
  q :: qtable
  name :: string
  path :: string
  alpha :: real
  gamma :: real
  epsilon :: real
  prevState :: "q_state option"
  prevAction :: "action option"

record world =
  files :: "string \<rightharpoonup> qtable"
  stdout :: "string list"

text \<open>
  The two calls of the module \<^verbatim>\<open>random\<close> that one tick can make:
  \<^verbatim>\<open>random.randrange(0, 100)\<close>, a number below 100, and
  \<^verbatim>\<open>random.choice(State.ACTIONS)\<close>, a member of \<open>ACTIONS\<close>.
\<close>

record draws =
  randrange :: nat
  choice :: action

definition load :: "agent \<Rightarrow> world \<Rightarrow> error + agent \<times> world" where
  "load self w =
     (case files w (path self) of
        Some t \<Rightarrow>
          Inr (self\<lparr>q := t\<rparr>,
               w\<lparr>stdout := stdout w @
                  [(if truthy (train self) then ''Training '' else ''Loaded '') @ path self]\<rparr>)
      | None \<Rightarrow>
          if truthy (train self)
          then Inr (self, w\<lparr>stdout := stdout w @ [''Training '' @ path self]\<rparr>)
          else Inl (Exception (''File does not exist: '' @ path self)))"

text \<open>
  \<^verbatim>\<open>__init__\<close>. The path is written relative to the directory of the module. The
  attributes that Python assigns after \<^verbatim>\<open>self.load()\<close> are not read by \<open>load\<close>, so the
  record carries them from the start. The literals \<^verbatim>\<open>0.1\<close> and \<^verbatim>\<open>0.6\<close> denote the
  nearest binary64 values.
\<close>

definition Agent_init :: "string option \<Rightarrow> world \<Rightarrow> error + agent \<times> world" where
  "Agent_init train0 w =
     (let name0 = py_or train0 ''q''
      in load \<lparr>train = train0, q = Map.empty, name = name0,
                path = ''train/'' @ name0 @ ''.json'',
                alpha = fl (1 / 10), gamma = fl (6 / 10), epsilon = 0,
                prevState = None, prevAction = None\<rparr> w)"

definition save :: "agent \<Rightarrow> world \<Rightarrow> world" where
  "save self w = w\<lparr>files := (files w)(path self \<mapsto> q self)\<rparr>"

definition addNewStateToQTable :: "agent \<Rightarrow> string \<Rightarrow> world \<Rightarrow> agent \<times> world" where
  "addNewStateToQTable self stateKey w =
     (let self' = self\<lparr>q := (q self)(stateKey \<mapsto> [0, 0, 0, 0, 0])\<rparr>
      in (self', save self' w))"

definition actionToIndex :: "action option \<Rightarrow> nat option" where
  "actionToIndex actionString =
     (if actionString = Some ''u'' then Some 0
      else if actionString = Some ''d'' then Some 1
      else if actionString = Some ''l'' then Some 2
      else if actionString = Some ''r'' then Some 3
      else if actionString = Some ''_'' then Some 4
      else None)"

text \<open>Line 180 of the source: the value that \<open>updateQTable\<close> writes.\<close>

definition newQValue :: "real \<Rightarrow> real \<Rightarrow> real \<Rightarrow> real \<Rightarrow> real \<Rightarrow> real" where
  "newQValue a g old R maxOfCurrActions =
     fadd (fmul (fsub 1 a) old) (fmul a (fadd R (fmul g maxOfCurrActions)))"

text \<open>
  \<open>updateQTable\<close> ignores its parameters \<open>prevStateKey\<close> and \<open>prevStateAction\<close>: it
  reads \<^verbatim>\<open>self.prevState.key\<close> and \<^verbatim>\<open>self.prevAction\<close> again. An action that
  \<open>actionToIndex\<close> does not know gives the index None, a TypeError at the subscript.
\<close>

definition updateQTable ::
  "agent \<Rightarrow> string \<Rightarrow> action \<Rightarrow> string \<Rightarrow> action option \<Rightarrow> real \<Rightarrow> world
     \<Rightarrow> error + agent \<times> world" where
  "updateQTable self currStateKey currStateAction prevStateKey0 prevStateAction R w =
     (let prevActionIndex = actionToIndex (prevAction self)
      in case prevState self of
           None \<Rightarrow> Inl AttributeError
         | Some ps \<Rightarrow>
             (let prevStateKey = key ps
              in case q self currStateKey of
                   None \<Rightarrow> Inl KeyError
                 | Some cur \<Rightarrow>
                     (case py_max cur of
                        Inl e \<Rightarrow> Inl e
                      | Inr maxOfCurrActions \<Rightarrow>
                          (case q self prevStateKey of
                             None \<Rightarrow> Inl KeyError
                           | Some row \<Rightarrow>
                               (case prevActionIndex of
                                  None \<Rightarrow> Inl TypeError
                                | Some i \<Rightarrow>
                                    if i < length row
                                    then
                                      (let v = newQValue (alpha self) (gamma self) (row ! i) R
                                                 maxOfCurrActions;
                                           self' = self\<lparr>q := (q self)(prevStateKey \<mapsto> row[i := v])\<rparr>
                                       in Inr (self', save self' w))
                                    else Inl IndexError)))))"

definition pickBestAction :: "agent \<Rightarrow> string \<Rightarrow> error + action" where
  "pickBestAction self stateKey =
     (case q self stateKey of
        None \<Rightarrow> Inl KeyError
      | Some actionValues \<Rightarrow>
          (case py_max actionValues of
             Inl e \<Rightarrow> Inl e
           | Inr m \<Rightarrow>
               (case py_index actionValues m of
                  Inl e \<Rightarrow> Inl e
                | Inr i \<Rightarrow> if i < length ACTIONS then Inr (ACTIONS ! i) else Inl IndexError)))"

definition pickRandomAction :: "draws \<Rightarrow> action" where
  "pickRandomAction d = choice d"

definition findBestAction :: "agent \<Rightarrow> string \<Rightarrow> draws \<Rightarrow> error + action" where
  "findBestAction self stateKey d =
     (let rand = randrange d
      in if real rand \<le> fmul (epsilon self) 100
         then Inr (pickRandomAction d)
         else pickBestAction self stateKey)"

definition qLearning ::
  "(string \<Rightarrow> state) \<Rightarrow> agent \<Rightarrow> string \<Rightarrow> draws \<Rightarrow> world
     \<Rightarrow> error + action \<times> agent \<times> world" where
  "qLearning State_init self state_string d w =
     (let currQState = Q_State State_init state_string;
          currStateKey = key currQState
      in if currStateKey \<in> dom (q self)
         then
           (case findBestAction self currStateKey d of
              Inl e \<Rightarrow> Inl e
            | Inr action \<Rightarrow>
                (let sPrime = currStateKey;
                     R = reward currQState
                 in case prevState self of
                      None \<Rightarrow> Inl AttributeError
                    | Some ps \<Rightarrow>
                        (let prevStateKey = key ps;
                             prevStateAction = prevAction self
                         in case updateQTable self sPrime action prevStateKey prevStateAction R w of
                              Inl e \<Rightarrow> Inl e
                            | Inr (self', w') \<Rightarrow> Inr (action, self', w'))))
         else Inl UnboundLocalError)"

text \<open>Lines 129 and 130 of \<open>choose_action\<close>: the table entry of a key seen for the first time.\<close>

definition ensureState :: "agent \<Rightarrow> string \<Rightarrow> world \<Rightarrow> agent \<times> world" where
  "ensureState self currStateKey w =
     (if currStateKey \<notin> dom (q self) then addNewStateToQTable self currStateKey w
      else (self, w))"

definition choose_action ::
  "(string \<Rightarrow> state) \<Rightarrow> agent \<Rightarrow> string \<Rightarrow> draws \<Rightarrow> world
     \<Rightarrow> error + action \<times> agent \<times> world" where
  "choose_action State_init self state_string d w =
     (let currQState = Q_State State_init state_string;
          currStateKey = key currQState;
          (self1, w1) = ensureState self currStateKey w
      in case prevState self1 of
           None \<Rightarrow>
             (case findBestAction self1 currStateKey d of
                Inl e \<Rightarrow> Inl e
              | Inr bestAction \<Rightarrow>
                  Inr (bestAction,
                       self1\<lparr>prevState := Some currQState, prevAction := Some bestAction\<rparr>, w1))
         | Some _ \<Rightarrow>
             (case qLearning State_init self1 state_string d w1 of
                Inl e \<Rightarrow> Inl e
              | Inr (bestAction, self2, w2) \<Rightarrow>
                  Inr (bestAction,
                       self2\<lparr>prevState := Some currQState, prevAction := Some bestAction\<rparr>, w2)))"

section \<open>Notions of the specification and example inputs\<close>

text \<open>
  The window of the specification: the symbol at the offset \<open>(dx, dy)\<close> from the frog,
  \<^verbatim>\<open>'_'\<close> for an absent cell.
\<close>

definition window :: "'a state_scheme \<Rightarrow> int \<Rightarrow> int \<Rightarrow> string" where
  "window s dx dy = py_or (get s (frog_x s + dx) (frog_y s + dy)) ''_''"

text \<open>
  An agent as \<^verbatim>\<open>Agent()\<close> leaves it (no training name, default parameters), holding the
  table \<open>t\<close> and the prior transition \<open>(ps, pa)\<close>; and a game state whose grid is empty
  but for the cell straight ahead of the frog, which holds \<open>ahead\<close>.
\<close>

definition example_agent :: "qtable \<Rightarrow> q_state option \<Rightarrow> action option \<Rightarrow> agent" where
  "example_agent t ps pa =
     \<lparr>train = None, q = t, name = ''q'', path = ''train/q.json'',
      alpha = fl (1 / 10), gamma = fl (6 / 10), epsilon = 0,
      prevState = ps, prevAction = pa\<rparr>"

definition example_state :: "string option \<Rightarrow> bool \<Rightarrow> bool \<Rightarrow> state" where
  "example_state ahead goal done0 =
     \<lparr>frog_x = 7, frog_y = 3, get = (\<lambda>x y. if x = 7 \<and> y = 2 then ahead else None),
      at_goal = goal, is_done = done0, score = 0\<rparr>"

text \<open>
  Repeated application of the update to one entry, as the specification's convergence
  property has it: \<open>repeated a g R m n v\<close> is the entry after \<open>n\<close> updates with
  learning rate \<open>a\<close>, discount \<open>g\<close>, reward \<open>R\<close> and best next value \<open>m\<close>, from \<open>v\<close>.
\<close>

primrec repeated :: "real \<Rightarrow> real \<Rightarrow> real \<Rightarrow> real \<Rightarrow> nat \<Rightarrow> real \<Rightarrow> real" where
  "repeated a g R m 0 v = v"
| "repeated a g R m (Suc n) v = repeated a g R m n (newQValue a g v R m)"

text \<open>
  For evaluation: \<open>td_step\<close> is one update of a binary64 value with the default
  parameters, reward 10 and best next value 0, the constants folded; \<open>climb n v v'\<close>
  follows \<open>n\<close> further updates from \<open>v'\<close> and returns the last value when every step,
  the one from \<open>v\<close> to \<open>v'\<close> included, rises strictly.
\<close>

definition td_step :: "real \<Rightarrow> real" where
  "td_step v = fl (fl (8106479329266893 / 9007199254740992 * v) + 1)"

fun climb :: "nat \<Rightarrow> real \<Rightarrow> real \<Rightarrow> real option" where
  "climb 0 v v' = (if v < v' then Some v' else None)"
| "climb (Suc n) v v' = (if v < v' then climb n v' (td_step v') else None)"

section \<open>Evaluating the arithmetic\<close>

lemma bitlen_numeral [simp]: "bitlen (numeral k) = Suc (bitlen (numeral k div 2))"
  by (subst bitlen.simps) simp

lemma bitlen_0 [simp]: "bitlen 0 = 0"
  by (subst bitlen.simps) simp

lemma bitlen_1 [simp]: "bitlen (Suc 0) = Suc 0"
  by (subst bitlen.simps) simp

lemmas fl_eval = fl_def expo_def pow2_def rne_def Let_def

lemmas farith = fadd_def fsub_def fmul_def

lemma fl_0 [simp]: "fl 0 = 0"
  by (simp add: fl_def)

lemma newQValue_failure: "newQValue (fl (1 / 10)) (fl (6 / 10)) 0 (- 10) 0 = - 1"
  by (simp add: newQValue_def farith fl_eval)

lemma newQValue_first: "newQValue (fl (1 / 10)) (fl (6 / 10)) 0 10 0 = 1"
  by (simp add: newQValue_def farith fl_eval)

lemma compute_key_example:
  "compute_key (example_state None g dn) = ''____________________''"
  "compute_key (example_state (Some ''c'') g dn) = ''__c_________________''"
  by (simp_all add: compute_key_def example_state_def py_or_def)

lemma key_Q_State: "key (Q_State State_init str) = compute_key (State_init str)"
  by (simp add: Q_State_def Let_def)

lemma reward_Q_State: "reward (Q_State State_init str) = reward (State_init str)"
  by (simp add: Q_State_def reward_def Let_def)

lemma reward_example: "reward (example_state ahead False True) = - 10"
  "reward (example_state ahead False False) = 0"
  by (simp_all add: reward_def example_state_def)

section \<open>Properties of the rounding\<close>

text \<open>
  \<open>fl\<close> is a rounding to 53 significant bits: \<open>expo\<close> is the binary exponent
  (\<open>expo_bounds\<close>), a number with a significand of at most 53 bits is left as it is
  (\<open>fl_repr_le\<close>), so is an int of magnitude up to \<open>2 ^ 53\<close> (\<open>fl_int\<close>), the result
  is such a number (\<open>fl_form\<close>), so that rounding twice is rounding once (\<open>fl_idem\<close>),
  and the error is at most half a unit in the last place (\<open>fl_error\<close>).
\<close>

lemma bitlen_bounds: "0 < n \<Longrightarrow> 2 ^ (bitlen n - 1) \<le> n \<and> n < 2 ^ bitlen n"
proof (induction n rule: bitlen.induct)
  case (1 n)
  show ?case
  proof (cases "n div 2 = 0")
    case True
    with "1.prems" have "n = 1" by (cases n) (auto simp: div_eq_0_iff)
    then show ?thesis by (simp add: bitlen.simps [of 1] bitlen.simps [of 0])
  next
    case False
    then have pos: "0 < n div 2" by simp
    from "1.IH" [OF _ pos] "1.prems"
    have ih: "2 ^ (bitlen (n div 2) - 1) \<le> n div 2" "n div 2 < 2 ^ bitlen (n div 2)" by simp_all
    have b: "bitlen n = Suc (bitlen (n div 2))" using "1.prems" by (subst bitlen.simps) simp
    have bp: "0 < bitlen (n div 2)" using pos by (subst bitlen.simps) simp
    then have "(2::nat) ^ bitlen (n div 2) = 2 * 2 ^ (bitlen (n div 2) - 1)"
      by (cases "bitlen (n div 2)") simp_all
    with ih have "2 ^ bitlen (n div 2) \<le> n" by linarith
    moreover from ih(2) have "n < 2 * 2 ^ bitlen (n div 2)" by linarith
    ultimately show ?thesis by (simp add: b)
  qed
qed

lemma bitlen_pos: "0 < n \<Longrightarrow> 0 < bitlen n"
  by (subst bitlen.simps) simp

lemma pow2_powr: "pow2 e = 2 powr (real_of_int e)"
proof (cases "0 \<le> e")
  case True
  then show ?thesis by (simp add: pow2_def powr_realpow [symmetric])
next
  case False
  then have r: "real (nat (- e)) = - real_of_int e" by simp
  have "(2::real) ^ nat (- e) = 2 powr real (nat (- e))"
    by (simp add: powr_realpow)
  also have "\<dots> = 2 powr (- real_of_int e)" by (simp only: r)
  finally have "1 / (2::real) ^ nat (- e) = 2 powr real_of_int e"
    by (simp add: powr_minus_divide)
  with False show ?thesis by (simp add: pow2_def)
qed

lemma pow2_pos [simp]: "0 < pow2 e"
  by (simp add: pow2_powr)

lemma pow2_add: "pow2 (a + b) = pow2 a * pow2 b"
  by (simp add: pow2_powr powr_add)

lemma pow2_less_iff [simp]: "pow2 a < pow2 b \<longleftrightarrow> a < b"
  by (simp add: pow2_powr)

lemma pow2_le_iff [simp]: "pow2 a \<le> pow2 b \<longleftrightarrow> a \<le> b"
  by (simp add: pow2_powr)

lemma pow2_nat: "pow2 (int n) = 2 ^ n"
  by (simp add: pow2_def)

lemma pow2_0 [simp]: "pow2 0 = 1"
  by (simp add: pow2_def)

lemma expo_bounds:
  assumes "0 < x"
  shows "pow2 (expo x) \<le> x \<and> x < pow2 (expo x + 1)"
proof (cases "1 \<le> x")
  case True
  define n where "n = nat \<lfloor>x\<rfloor>"
  from True have n: "0 < n" "real n \<le> x" "x < real n + 1"
    by (simp_all add: n_def)
  from bitlen_bounds [OF n(1)] have b: "2 ^ (bitlen n - 1) \<le> n" "n < 2 ^ bitlen n" by simp_all
  from bitlen_pos [OF n(1)] have e: "expo x = int (bitlen n - 1)"
    using True by (simp add: expo_def n_def)
  from bitlen_pos [OF n(1)] have e1: "expo x + 1 = int (bitlen n)"
    unfolding e by (cases "bitlen n") simp_all
  have p: "pow2 (expo x) = 2 ^ (bitlen n - 1)" "pow2 (expo x + 1) = 2 ^ bitlen n"
    by (simp only: e pow2_nat) (simp only: e1 pow2_nat)
  from b(1) have "real (2 ^ (bitlen n - 1)) \<le> real n"
    by (simp only: of_nat_le_iff)
  then have "(2::real) ^ (bitlen n - 1) \<le> real n" by simp
  moreover from b(2) have "Suc n \<le> 2 ^ bitlen n" by (rule Suc_leI)
  then have "real (Suc n) \<le> real (2 ^ bitlen n)" by (simp only: of_nat_le_iff)
  then have "real n + 1 \<le> 2 ^ bitlen n" by simp
  ultimately show ?thesis using n unfolding p by linarith
next
  case False
  define N where "N = \<lceil>1 / x\<rceil>"
  from False assms have x: "1 < 1 / x" by simp
  then have N2: "2 \<le> N" unfolding N_def by linarith
  have N: "real_of_int N - 1 < 1 / x" "1 / x \<le> real_of_int N"
    unfolding N_def by linarith+
  define k where "k = bitlen (nat (N - 1))"
  from N2 have pos: "0 < nat (N - 1)" by simp
  from bitlen_bounds [OF pos] have b: "2 ^ (k - 1) \<le> nat (N - 1)" "nat (N - 1) < 2 ^ k"
    by (simp_all add: k_def)
  from bitlen_pos [OF pos] have kpos: "0 < k" by (simp add: k_def)
  have e: "expo x = - int k" using False by (simp add: expo_def k_def N_def)
  from b(1) have "real (2 ^ (k - 1)) \<le> real (nat (N - 1))"
    by (simp only: of_nat_le_iff)
  then have "(2::real) ^ (k - 1) \<le> real (nat (N - 1))" by simp
  with N2 have lo: "(2::real) ^ (k - 1) \<le> real_of_int N - 1" by simp
  from b(2) have "Suc (nat (N - 1)) \<le> 2 ^ k" by (rule Suc_leI)
  then have "real (Suc (nat (N - 1))) \<le> real (2 ^ k)" by (simp only: of_nat_le_iff)
  then have "real (nat (N - 1)) + 1 \<le> 2 ^ k" by simp
  with N2 have hi: "real_of_int N \<le> 2 ^ k" by simp
  have "1 / x \<le> 2 ^ k" using N(2) hi by linarith
  then have "1 \<le> 2 ^ k * x" using assms by (simp add: field_simps)
  then have 1: "1 / 2 ^ k \<le> x" by (simp add: field_simps)
  have "2 ^ (k - 1) < 1 / x" using N(1) lo by linarith
  then have "2 ^ (k - 1) * x < 1" using assms by (simp add: field_simps)
  then have 2: "x < 1 / 2 ^ (k - 1)" by (simp add: field_simps)
  have p1: "pow2 (- int k) = 1 / 2 ^ k" using kpos by (simp add: pow2_def)
  have "- int k + 1 = - int (k - 1)" using kpos by simp
  then have p2: "pow2 (- int k + 1) = 1 / 2 ^ (k - 1)"
    by (cases "k - 1 = 0") (simp_all add: pow2_def)
  show ?thesis unfolding e p1 p2 using 1 2 by simp
qed

lemma expo_unique:
  assumes "0 < x" "pow2 E \<le> x" "x < pow2 (E + 1)"
  shows "expo x = E"
proof -
  from expo_bounds [OF assms(1)] have b: "pow2 (expo x) \<le> x" "x < pow2 (expo x + 1)" by simp_all
  from b(1) assms(3) have "pow2 (expo x) < pow2 (E + 1)" by linarith
  moreover from assms(2) b(2) have "pow2 E < pow2 (expo x + 1)" by linarith
  ultimately show ?thesis by simp
qed

lemma rne_of_int [simp]: "rne (of_int n) = n"
  by (simp add: rne_def)

lemma rne_near: "\<bar>of_int (rne m) - m\<bar> \<le> 1 / 2"
  unfolding rne_def Let_def by (auto simp: abs_if) linarith+

lemma pow2_diff: "pow2 (a - b) = pow2 a / pow2 b"
  by (simp add: pow2_powr powr_diff)

lemma pow2_neq0 [simp]: "pow2 e \<noteq> 0"
  by (simp add: pow2_powr)

lemma pow2_split: "pow2 c = pow2 a * pow2 (c - a)"
  using pow2_add [of a "c - a"] by simp

lemma pow2_1 [simp]: "pow2 1 = 2"
  by (simp add: pow2_def)

lemma pow2_52: "pow2 52 = 2 ^ 52"
  by (simp add: pow2_def)

lemma pow2_53: "pow2 53 = 2 ^ 53"
  by (simp add: pow2_def)

lemma fl_minus: "fl (- x) = - fl x"
  by (simp add: fl_def Let_def)

lemma fl_pos_repr:
  assumes "0 < m" "m < 2 ^ 53"
  shows "fl (of_int m * pow2 e) = of_int m * pow2 e"
proof -
  define n where "n = nat m"
  define k where "k = bitlen n"
  have n: "0 < n" "m = int n" using assms by (simp_all add: n_def)
  from bitlen_bounds [OF n(1)] have b: "2 ^ (k - 1) \<le> n" "n < 2 ^ k" by (simp_all add: k_def)
  have kpos: "0 < k" unfolding k_def by (rule bitlen_pos [OF n(1)])
  have "(2::nat) ^ (k - 1) < 2 ^ 53"
    using b(1) assms(2) n(2) by (metis le_less_trans of_nat_less_iff of_nat_numeral of_nat_power)
  then have "k - 1 < 53" by (rule power_less_imp_less_exp [rotated]) simp
  then have k53: "k \<le> 53" by simp
  define x where "x = real_of_int m * pow2 e"
  have xpos: "0 < x" using assms by (simp add: x_def)
  have rn: "real_of_int m = real n" using n(2) by simp
  from b(1) have "real (2 ^ (k - 1)) \<le> real n" by (simp only: of_nat_le_iff)
  then have lo: "(2::real) ^ (k - 1) \<le> real n" by simp
  from b(2) have "real n < real (2 ^ k)" by (simp only: of_nat_less_iff)
  then have hi: "real n < 2 ^ k" by simp
  have eq1: "e + int k - 1 - int (k - 1) = e" using kpos by linarith
  have "pow2 (e + int k - 1) = pow2 (int (k - 1)) * pow2 (e + int k - 1 - int (k - 1))"
    by (rule pow2_split)
  then have "pow2 (e + int k - 1) = pow2 (int (k - 1)) * pow2 e" by (simp only: eq1)
  then have 1: "pow2 (e + int k - 1) \<le> x"
    using lo by (simp add: x_def rn pow2_nat)
  have "pow2 (e + int k - 1 + 1) = pow2 (int k) * pow2 e"
    using pow2_split [of "e + int k - 1 + 1" "int k"] by simp
  then have 2: "x < pow2 (e + int k - 1 + 1)"
    using hi by (simp add: x_def rn pow2_nat)
  from expo_unique [OF xpos 1 2] have ex: "expo x = e + int k - 1" .
  have eq2: "e - int (53 - k) = e + int k - 53" using k53 by linarith
  have "pow2 e = pow2 (int (53 - k)) * pow2 (e - int (53 - k))"
    by (rule pow2_split)
  then have "pow2 e = pow2 (int (53 - k)) * pow2 (e + int k - 53)" by (simp only: eq2)
  then have pe: "pow2 e = 2 ^ (53 - k) * pow2 (e + int k - 53)"
    by (simp only: pow2_nat)
  have q: "x / pow2 (e + int k - 53) = real_of_int (m * 2 ^ (53 - k))"
    unfolding x_def by (subst pe) simp
  have "fl x = real_of_int (m * 2 ^ (53 - k)) * pow2 (e + int k - 53)"
    using xpos by (simp add: fl_def Let_def ex q del: of_int_mult of_int_power)
  also have "\<dots> = x" unfolding x_def by (subst pe) simp
  finally show ?thesis by (simp only: x_def)
qed

lemma fl_repr:
  assumes "\<bar>m\<bar> < 2 ^ 53"
  shows "fl (of_int m * pow2 e) = of_int m * pow2 e"
proof -
  consider "m = 0" | "0 < m" | "m < 0" by linarith
  then show ?thesis
  proof cases
    case 1
    then show ?thesis by (simp add: fl_def)
  next
    case 2
    with assms show ?thesis by (intro fl_pos_repr) simp_all
  next
    case 3
    with assms have "fl (of_int (- m) * pow2 e) = of_int (- m) * pow2 e"
      by (intro fl_pos_repr) simp_all
    then show ?thesis using fl_minus [of "of_int m * pow2 e"] by simp
  qed
qed

lemma fl_repr_le:
  assumes "\<bar>m\<bar> \<le> 2 ^ 53"
  shows "fl (of_int m * pow2 e) = of_int m * pow2 e"
proof (cases "\<bar>m\<bar> < 2 ^ 53")
  case True
  then show ?thesis by (rule fl_repr)
next
  case False
  with assms have "m = 2 ^ 53 \<or> m = - (2 ^ 53)" by linarith
  then obtain s :: int where s: "m = s * 2 ^ 52 * 2" "\<bar>s * 2 ^ 52\<bar> < 2 ^ 53"
    by (auto intro: that [of 1] that [of "- 1"])
  have "of_int m * pow2 e = of_int (s * 2 ^ 52) * pow2 (e + 1)"
    by (simp add: s(1) pow2_add)
  with fl_repr [OF s(2), of "e + 1"] show ?thesis by simp
qed

lemma fl_int: "\<bar>n\<bar> \<le> 2 ^ 53 \<Longrightarrow> fl (of_int n) = of_int n"
  using fl_repr_le [of n 0] by simp

lemma fl_form:
  assumes "x \<noteq> 0"
  shows "\<exists>M. fl x = of_int M * pow2 (expo \<bar>x\<bar> - 52) \<and> 2 ^ 52 \<le> \<bar>M\<bar> \<and> \<bar>M\<bar> \<le> 2 ^ 53"
proof -
  define u where "u = pow2 (expo \<bar>x\<bar> - 52)"
  define r where "r = rne (\<bar>x\<bar> / u)"
  have ax: "0 < \<bar>x\<bar>" using assms by simp
  from expo_bounds [OF ax] have b: "pow2 (expo \<bar>x\<bar>) \<le> \<bar>x\<bar>" "\<bar>x\<bar> < pow2 (expo \<bar>x\<bar> + 1)"
    by simp_all
  have upos: "0 < u" by (simp add: u_def)
  have "pow2 (expo \<bar>x\<bar>) = pow2 52 * u" "pow2 (expo \<bar>x\<bar> + 1) = pow2 53 * u"
    unfolding u_def
    using pow2_split [of "expo \<bar>x\<bar>" 52] pow2_split [of "expo \<bar>x\<bar> + 1" 53]
    by simp_all
  then have "pow2 (expo \<bar>x\<bar>) = 2 ^ 52 * u" "pow2 (expo \<bar>x\<bar> + 1) = 2 ^ 53 * u"
    by (simp_all only: pow2_52 pow2_53)
  with b upos have m: "2 ^ 52 \<le> \<bar>x\<bar> / u" "\<bar>x\<bar> / u < 2 ^ 53"
    by (simp_all add: field_simps)
  from rne_near [of "\<bar>x\<bar> / u"] have "\<bar>real_of_int r - \<bar>x\<bar> / u\<bar> \<le> 1 / 2" by (simp add: r_def)
  with m have "2 ^ 52 - 1 / 2 \<le> real_of_int r" "real_of_int r < 2 ^ 53 + 1 / 2" by linarith+
  then have "real_of_int (2 ^ 52 - 1) < real_of_int r" "real_of_int r < real_of_int (2 ^ 53 + 1)"
    by simp_all
  then have r: "2 ^ 52 \<le> r" "r \<le> 2 ^ 53" by (simp_all only: of_int_less_iff)
  have "fl x = of_int ((if 0 < x then 1 else - 1) * r) * u"
    using assms by (simp add: fl_def Let_def u_def r_def sgn_if)
  moreover have "\<bar>(if 0 < x then 1 else - 1) * r\<bar> = r" using r by (simp add: abs_mult)
  ultimately show ?thesis using r unfolding u_def by metis
qed

lemma fl_idem: "fl (fl x) = fl x"
proof (cases "x = 0")
  case True
  then show ?thesis by (simp add: fl_def)
next
  case False
  from fl_form [OF False] obtain M where M: "fl x = of_int M * pow2 (expo \<bar>x\<bar> - 52)"
    "\<bar>M\<bar> \<le> 2 ^ 53" by blast
  from fl_repr_le [OF M(2)] show ?thesis by (simp only: M(1))
qed

lemma fl_error: "\<bar>fl x - x\<bar> \<le> pow2 (expo \<bar>x\<bar> - 53)"
proof (cases "x = 0")
  case True
  then show ?thesis by (simp add: fl_def less_imp_le)
next
  case False
  define u where "u = pow2 (expo \<bar>x\<bar> - 52)"
  have upos: "0 < u" by (simp add: u_def)
  have "fl x - x = sgn x * (of_int (rne (\<bar>x\<bar> / u)) - \<bar>x\<bar> / u) * u"
    using False upos by (simp add: fl_def Let_def u_def algebra_simps sgn_if)
  then have "\<bar>fl x - x\<bar> = \<bar>of_int (rne (\<bar>x\<bar> / u)) - \<bar>x\<bar> / u\<bar> * u"
    using False upos by (simp add: abs_mult sgn_if)
  also have "\<dots> \<le> 1 / 2 * u"
    using rne_near [of "\<bar>x\<bar> / u"] upos by (intro mult_right_mono) simp_all
  also have "\<dots> = pow2 (expo \<bar>x\<bar> - 53)"
    unfolding u_def using pow2_add [of "expo \<bar>x\<bar> - 53" 1] by simp
  finally show ?thesis .
qed

section \<open>The reward\<close>

text \<open>
  C4. For every raw state, \<open>reward\<close> is the score when \<open>at_goal\<close> holds, also when
  \<open>is_done\<close> holds too; it is -10 when \<open>is_done\<close> holds and \<open>at_goal\<close> does not; it is
  0 in every other case.
\<close>

theorem reward_cases:
  "(at_goal s \<longrightarrow> reward s = score s) \<and>
   (is_done s \<and> \<not> at_goal s \<longrightarrow> reward s = - 10) \<and>
   (\<not> at_goal s \<and> \<not> is_done s \<longrightarrow> reward s = 0)"
  by (simp add: reward_def)

theorem reward_cases_witness:
  "reward \<lparr>frog_x = 3, frog_y = 0, get = (\<lambda>x y. None), at_goal = True, is_done = True,
           score = 42\<rparr> = 42 \<and>
   reward \<lparr>frog_x = 3, frog_y = 5, get = (\<lambda>x y. None), at_goal = False, is_done = True,
           score = 42\<rparr> = - 10 \<and>
   reward \<lparr>frog_x = 3, frog_y = 5, get = (\<lambda>x y. None), at_goal = False, is_done = False,
           score = 42\<rparr> = 0"
  using reward_cases [of "\<lparr>frog_x = 3, frog_y = 0, get = (\<lambda>x y. None), at_goal = True,
                           is_done = True, score = 42\<rparr>"]
    reward_cases [of "\<lparr>frog_x = 3, frog_y = 5, get = (\<lambda>x y. None), at_goal = False,
                       is_done = True, score = 42\<rparr>"]
    reward_cases [of "\<lparr>frog_x = 3, frog_y = 5, get = (\<lambda>x y. None), at_goal = False,
                       is_done = False, score = 42\<rparr>"]
  by simp

section \<open>The state key\<close>

lemma compute_key_window:
  "compute_key s = concat (map (\<lambda>(dx, dy). window s dx dy)
     [(- 2, - 1), (- 1, - 1), (0, - 1), (1, - 1), (2, - 1),
      (- 2, - 2), (- 1, - 2), (0, - 2), (1, - 2), (2, - 2),
      (- 2, 0), (- 1, 0), (0, 0), (1, 0), (2, 0),
      (- 2, 1), (- 1, 1), (0, 1), (1, 1), (2, 1)])"
  by (simp add: compute_key_def window_def)

text \<open>
  C9. The key depends only on the 20 symbols of the window, five columns by four rows
  around the frog, \<^verbatim>\<open>'_'\<close> standing for an absent cell: two states whose windows agree
  cell for cell have the same key, whatever else differs (position, flags, score, the
  cells outside the window, further attributes).
\<close>

theorem compute_key_window_only:
  assumes "\<forall>dx\<in>{- 2..2}. \<forall>dy\<in>{- 2..1}. window s1 dx dy = window s2 dx dy"
  shows "compute_key s1 = compute_key s2"
proof -
  have "window s1 dx dy = window s2 dx dy"
    if "- 2 \<le> dx" "dx \<le> 2" "- 2 \<le> dy" "dy \<le> 1" for dx dy
    using assms that by simp
  then show ?thesis
    unfolding compute_key_window by simp
qed

theorem compute_key_window_only_witness:
  "compute_key \<lparr>frog_x = 3, frog_y = 5,
      get = (\<lambda>x y. if x = 4 \<and> y = 4 then Some ''c'' else if y = 9 then Some ''w'' else None),
      at_goal = False, is_done = False, score = 0\<rparr>
   = compute_key \<lparr>frog_x = 7, frog_y = 2,
      get = (\<lambda>x y. if x = 8 \<and> y = 1 then Some ''c'' else None),
      at_goal = True, is_done = True, score = 50\<rparr>"
  by (rule compute_key_window_only) (simp add: window_def py_or_def)

section \<open>Greedy selection\<close>

lemma foldl_max_fold: "foldl max x ys = fold max ys (x::real)"
  by (induction ys arbitrary: x) (simp_all add: max.commute)

lemma foldl_max_Max: "foldl max x ys = Max (set ((x::real) # ys))"
  unfolding foldl_max_fold by (rule Max.set_eq_fold [symmetric])

lemma py_max_Inr: "xs \<noteq> [] \<Longrightarrow> py_max xs = Inr (Max (set xs))"
  by (cases xs) (simp_all add: py_max_def foldl_max_Max del: Max_insert set_simps)

lemma py_index_first:
  "v \<in> set xs \<Longrightarrow>
   \<exists>i<length xs. py_index xs v = Inr i \<and> xs ! i = v \<and> (\<forall>j<i. xs ! j \<noteq> v)"
proof (induction xs)
  case Nil
  then show ?case by simp
next
  case (Cons x xs)
  show ?case
  proof (cases "x = v")
    case True
    then show ?thesis by simp
  next
    case False
    with Cons.prems have "v \<in> set xs" by simp
    from Cons.IH [OF this] obtain i where i: "i < length xs" "py_index xs v = Inr i"
      "xs ! i = v" "\<forall>j<i. xs ! j \<noteq> v" by blast
    have "\<forall>j<Suc i. (x # xs) ! j \<noteq> v"
      using False i(4) by (auto simp: less_Suc_eq_0_disj)
    with i False show ?thesis
      by (intro exI [of _ "Suc i"]) simp
  qed
qed

text \<open>
  C6. For a value vector of five entries, and so for every one in which two or more
  entries share the maximal value, \<open>pickBestAction\<close> returns the action at the smallest
  index holding the maximum, in the order \<open>[u, d, l, r, _]\<close>. The result is a function of
  the table alone: \<open>pickBestAction\<close> takes no random draw.
\<close>

theorem pickBestAction_first_max:
  assumes "q self stateKey = Some vs" and "length vs = 5"
  shows "\<exists>i<5. pickBestAction self stateKey = Inr (ACTIONS ! i) \<and>
           vs ! i = Max (set vs) \<and> (\<forall>j<i. vs ! j < Max (set vs))"
proof -
  from assms(2) have ne: "vs \<noteq> []" by auto
  then have "Max (set vs) \<in> set vs" by simp
  from py_index_first [OF this] obtain i where i: "i < length vs"
    "py_index vs (Max (set vs)) = Inr i" "vs ! i = Max (set vs)"
    "\<forall>j<i. vs ! j \<noteq> Max (set vs)" by blast
  have "vs ! j < Max (set vs)" if "j < i" for j
  proof -
    from that i(1) have "vs ! j \<in> set vs" by simp
    then have "vs ! j \<le> Max (set vs)" by simp
    with i(4) that show ?thesis by (simp add: less_le)
  qed
  moreover have "pickBestAction self stateKey = Inr (ACTIONS ! i)"
    using assms i(1,2) ne by (simp add: pickBestAction_def py_max_Inr ACTIONS_def)
  ultimately show ?thesis using i(1,3) assms(2) by auto
qed

theorem pickBestAction_first_max_witness:
  "q (example_agent [''k'' \<mapsto> [0, 3, 1, 3, 0]] None None) ''k'' = Some [0, 3, 1, 3, 0] \<and>
   length [0, 3, 1, 3, 0 :: real] = 5 \<and>
   pickBestAction (example_agent [''k'' \<mapsto> [0, 3, 1, 3, 0]] None None) ''k'' = Inr ''d''"
proof -
  let ?ag = "example_agent [''k'' \<mapsto> [0, 3, 1, 3, 0]] None None"
  have h: "q ?ag ''k'' = Some [0, 3, 1, 3, 0]" by (simp add: example_agent_def)
  have l: "length [0, 3, 1, 3, 0 :: real] = 5" by simp
  from pickBestAction_first_max [OF h l] obtain i where i: "i < 5"
    "pickBestAction ?ag ''k'' = Inr (ACTIONS ! i)"
    "[0, 3, 1, 3, 0 :: real] ! i = Max (set [0, 3, 1, 3, 0])"
    "\<forall>j<i. [0, 3, 1, 3, 0 :: real] ! j < Max (set [0, 3, 1, 3, 0])" by blast
  have m: "Max (set [0, 3, 1, 3, 0 :: real]) = 3" by simp
  have "\<not> 1 < i"
  proof
    assume "1 < i"
    with i(4) have "[0, 3, 1, 3, 0 :: real] ! 1 < Max (set [0, 3, 1, 3, 0])" by blast
    with m show False by simp
  qed
  moreover have "i \<noteq> 0"
  proof
    assume "i = 0"
    with i(3) m show False by simp
  qed
  ultimately have "i = 1" by arith
  with i(2) h show ?thesis by (simp add: ACTIONS_def)
qed

section \<open>Zero initialisation\<close>



lemma ensureState_dom: "k \<in> dom (q (fst (ensureState self k w)))"
  by (auto simp: ensureState_def addNewStateToQTable_def Let_def)

lemma ensureState_prev:
  "ensureState self k w = (self1, w1) \<Longrightarrow>
   prevState self1 = prevState self \<and> prevAction self1 = prevAction self"
  by (auto simp: ensureState_def addNewStateToQTable_def Let_def split: if_splits)

section \<open>The update of the table\<close>

lemma updateQTable_succeeds:
  assumes "prevState self = Some ps" and "actionToIndex (prevAction self) = Some a"
    and "q self (key ps) = Some row" and "a < length row"
    and "q self ck = Some cur" and "cur \<noteq> []"
  shows "\<exists>self' w'. updateQTable self ck ca pk pa R w = Inr (self', w')"
  using assms by (cases cur) (auto simp: updateQTable_def py_max_def Let_def)

text \<open>
  C8. An update that returns has changed one scalar: every key other than the prior key
  maps to its previous vector, the vector at the prior key keeps its length and every entry
  other than the one at the prior action's index, nothing else of the agent has changed,
  and the file system differs from the old one in holding the new table at the agent's path.
\<close>

theorem updateQTable_frame:
  assumes "updateQTable self ck ca pk pa R w = Inr (self', w')"
  shows "\<exists>ps a row. prevState self = Some ps \<and> actionToIndex (prevAction self) = Some a \<and>
           q self (key ps) = Some row \<and> a < length row \<and>
           (\<forall>k. k \<noteq> key ps \<longrightarrow> q self' k = q self k) \<and>
           (\<exists>row'. q self' (key ps) = Some row' \<and> length row' = length row \<and>
                    (\<forall>i<length row. i \<noteq> a \<longrightarrow> row' ! i = row ! i)) \<and>
           self' = self\<lparr>q := q self'\<rparr> \<and>
           w' = w\<lparr>files := (files w)(path self \<mapsto> q self')\<rparr>"
  using assms
  by (auto simp: updateQTable_def save_def Let_def split: option.splits sum.splits if_splits)

theorem updateQTable_frame_witness:
  "updateQTable
     (example_agent [''a'' \<mapsto> [5, 6, 7, 8, 9], ''b'' \<mapsto> [0, 0, 0, 0, 0]]
        (Some (Q_State (\<lambda>_. example_state None False False) '''')) (Some ''l''))
     ''b'' ''u'' ''____________________'' (Some ''l'') 10
     \<lparr>files = Map.empty, stdout = []\<rparr>
   = Inl KeyError \<and>
   updateQTable
     (example_agent [''____________________'' \<mapsto> [0, 0, 0, 0, 0], ''b'' \<mapsto> [0, 0, 0, 0, 0]]
        (Some (Q_State (\<lambda>_. example_state None False False) '''')) (Some ''l''))
     ''b'' ''u'' ''____________________'' (Some ''l'') 10
     \<lparr>files = Map.empty, stdout = []\<rparr>
   = Inr (example_agent
            [''____________________'' \<mapsto> [0, 0, 1, 0, 0], ''b'' \<mapsto> [0, 0, 0, 0, 0]]
            (Some (Q_State (\<lambda>_. example_state None False False) '''')) (Some ''l''),
          \<lparr>files = [''train/q.json'' \<mapsto>
                      [''____________________'' \<mapsto> [0, 0, 1, 0, 0], ''b'' \<mapsto> [0, 0, 0, 0, 0]]],
           stdout = []\<rparr>) \<and>
   q (example_agent
        [''____________________'' \<mapsto> [0, 0, 1, 0, 0], ''b'' \<mapsto> [0, 0, 0, 0, 0]]
        (Some (Q_State (\<lambda>_. example_state None False False) '''')) (Some ''l'')) ''b''
     = Some [0, 0, 0, 0, 0]"
proof -
  let ?ps = "Some (Q_State (\<lambda>_. example_state None False False) '''')"
  let ?k = "''____________________''"
  let ?w = "\<lparr>files = Map.empty, stdout = []\<rparr>"
  have bad: "updateQTable
      (example_agent [''a'' \<mapsto> [5, 6, 7, 8, 9], ''b'' \<mapsto> [0, 0, 0, 0, 0]] ?ps (Some ''l''))
      ''b'' ''u'' ?k (Some ''l'') 10 ?w = Inl KeyError"
    by (simp add: updateQTable_def example_agent_def actionToIndex_def py_max_def
        key_Q_State compute_key_example Let_def)
  have ok: "updateQTable
      (example_agent [?k \<mapsto> [0, 0, 0, 0, 0], ''b'' \<mapsto> [0, 0, 0, 0, 0]] ?ps (Some ''l''))
      ''b'' ''u'' ?k (Some ''l'') 10 ?w
    = Inr (example_agent [?k \<mapsto> [0, 0, 1, 0, 0], ''b'' \<mapsto> [0, 0, 0, 0, 0]] ?ps (Some ''l''),
           \<lparr>files = [''train/q.json'' \<mapsto> [?k \<mapsto> [0, 0, 1, 0, 0], ''b'' \<mapsto> [0, 0, 0, 0, 0]]],
            stdout = []\<rparr>)"
    using newQValue_first
    by (simp add: updateQTable_def example_agent_def actionToIndex_def py_max_def save_def
        key_Q_State compute_key_example Let_def fun_upd_twist)
  from updateQTable_frame [OF ok] bad ok show ?thesis
    by (simp add: example_agent_def)
qed

section \<open>Epsilon-greedy selection\<close>

lemma findBestAction_greedy:
  "epsilon self = 0 \<Longrightarrow> 0 < randrange d \<Longrightarrow> findBestAction self k d = pickBestAction self k"
  by (simp add: findBestAction_def fmul_def)

text \<open>
  C1. With \<open>epsilon = 0\<close> the test \<^verbatim>\<open>rand <= self.epsilon * 100\<close> is \<^verbatim>\<open>rand <= 0\<close>, and
  \<^verbatim>\<open>random.randrange(0, 100)\<close> can return 0. On that draw \<open>findBestAction\<close> takes the
  exploration branch: it returns the random choice (here \<open>u\<close>) although the greedy action
  for the key is another one (here \<open>d\<close>), and so does the first tick of \<open>choose_action\<close>.
\<close>

theorem findBestAction_epsilon0_explores:
  "epsilon (example_agent [''____________________'' \<mapsto> [0, 1, 0, 0, 0]] None None) = 0 \<and>
   findBestAction (example_agent [''____________________'' \<mapsto> [0, 1, 0, 0, 0]] None None)
     ''____________________'' \<lparr>randrange = 0, choice = ''u''\<rparr> = Inr ''u'' \<and>
   pickBestAction (example_agent [''____________________'' \<mapsto> [0, 1, 0, 0, 0]] None None)
     ''____________________'' = Inr ''d'' \<and>
   choose_action (\<lambda>_. example_state None False False)
     (example_agent [''____________________'' \<mapsto> [0, 1, 0, 0, 0]] None None) ''''
     \<lparr>randrange = 0, choice = ''u''\<rparr> \<lparr>files = Map.empty, stdout = []\<rparr>
   = Inr (''u'',
          example_agent [''____________________'' \<mapsto> [0, 1, 0, 0, 0]]
            (Some (Q_State (\<lambda>_. example_state None False False) '''')) (Some ''u''),
          \<lparr>files = Map.empty, stdout = []\<rparr>)"
  by (simp add: example_agent_def findBestAction_def pickBestAction_def pickRandomAction_def
      py_max_def ACTIONS_def fmul_def choose_action_def ensureState_def key_Q_State
      compute_key_example)

section \<open>One tick with a prior transition\<close>

text \<open>
  C2, as the claim states it, fails. The prior and the current key are the same, all its
  values are 0, the prior action is \<open>u\<close> and the state is a failure (reward -10). The
  tick returns \<open>u\<close>, selected over the table before the update, while the update has
  lowered the value of \<open>u\<close> to -1: over the table the tick leaves, the same draw selects \<open>d\<close>.
\<close>

theorem choose_action_returns_preupdate_choice:
  "choose_action (\<lambda>_. example_state None False True)
     (example_agent [''____________________'' \<mapsto> [0, 0, 0, 0, 0]]
        (Some (Q_State (\<lambda>_. example_state None False False) '''')) (Some ''u''))
     '''' \<lparr>randrange = 50, choice = ''r''\<rparr> \<lparr>files = Map.empty, stdout = []\<rparr>
   = Inr (''u'',
          example_agent [''____________________'' \<mapsto> [- 1, 0, 0, 0, 0]]
            (Some (Q_State (\<lambda>_. example_state None False True) '''')) (Some ''u''),
          \<lparr>files = [''train/q.json'' \<mapsto> [''____________________'' \<mapsto> [- 1, 0, 0, 0, 0]]],
           stdout = []\<rparr>) \<and>
   findBestAction
     (example_agent [''____________________'' \<mapsto> [- 1, 0, 0, 0, 0]]
        (Some (Q_State (\<lambda>_. example_state None False True) '''')) (Some ''u''))
     ''____________________'' \<lparr>randrange = 50, choice = ''r''\<rparr> = Inr ''d''"
  using newQValue_failure
  by (simp add: choose_action_def qLearning_def ensureState_def updateQTable_def
      findBestAction_def pickBestAction_def py_max_def ACTIONS_def actionToIndex_def
      save_def key_Q_State reward_Q_State compute_key_example reward_example
      example_agent_def fmul_def Let_def)

text \<open>
  C2, amended. On every tick in which a prior transition exists and which returns an
  action, that action is the selection over the table as the get-or-initialise step left
  it, before the update; the update of the prior state-action pair is applied to that same
  table afterwards, with the reward of the current state, and the tick's table and file
  system are the ones the update leaves.
\<close>

theorem choose_action_selects_then_updates:
  assumes "prevState self = Some ps"
    and "choose_action P self str d w = Inr (a, self', w')"
  shows "\<exists>self1 w1 self2.
           ensureState self (key (Q_State P str)) w = (self1, w1) \<and>
           findBestAction self1 (key (Q_State P str)) d = Inr a \<and>
           updateQTable self1 (key (Q_State P str)) a (key ps) (prevAction self)
             (reward (Q_State P str)) w1 = Inr (self2, w') \<and>
           self' = self2\<lparr>prevState := Some (Q_State P str), prevAction := Some a\<rparr>"
proof -
  let ?k = "key (Q_State P str)"
  obtain self1 w1 where e: "ensureState self ?k w = (self1, w1)"
    by (cases "ensureState self ?k w")
  from ensureState_prev [OF e] assms(1)
  have ps: "prevState self1 = Some ps" "prevAction self1 = prevAction self" by simp_all
  from assms(2) e ps obtain self2 where
    ql: "qLearning P self1 str d w1 = Inr (a, self2, w')"
    and s': "self' = self2\<lparr>prevState := Some (Q_State P str), prevAction := Some a\<rparr>"
    by (auto simp: choose_action_def Let_def split: sum.splits prod.splits)
  from ql ps have "findBestAction self1 ?k d = Inr a \<and>
      updateQTable self1 ?k a (key ps) (prevAction self) (reward (Q_State P str)) w1
        = Inr (self2, w')"
    by (auto simp: qLearning_def Let_def split: if_splits sum.splits prod.splits)
  with e s' show ?thesis by blast
qed

theorem choose_action_selects_then_updates_witness:
  "prevState (example_agent [''____________________'' \<mapsto> [0, 0, 0, 0, 0]]
      (Some (Q_State (\<lambda>_. example_state None False False) '''')) (Some ''u''))
     = Some (Q_State (\<lambda>_. example_state None False False) '''') \<and>
   findBestAction
     (example_agent [''____________________'' \<mapsto> [0, 0, 0, 0, 0]]
        (Some (Q_State (\<lambda>_. example_state None False False) '''')) (Some ''u''))
     ''____________________'' \<lparr>randrange = 50, choice = ''r''\<rparr> = Inr ''u'' \<and>
   (\<exists>self2.
      updateQTable
        (example_agent [''____________________'' \<mapsto> [0, 0, 0, 0, 0]]
           (Some (Q_State (\<lambda>_. example_state None False False) '''')) (Some ''u''))
        ''____________________'' ''u'' ''____________________'' (Some ''u'') (- 10)
        \<lparr>files = Map.empty, stdout = []\<rparr>
      = Inr (self2,
             \<lparr>files = [''train/q.json'' \<mapsto> [''____________________'' \<mapsto> [- 1, 0, 0, 0, 0]]],
              stdout = []\<rparr>))"
proof -
  let ?ps = "Q_State (\<lambda>_. example_state None False False) ''''"
  let ?ag = "example_agent [''____________________'' \<mapsto> [0, 0, 0, 0, 0]] (Some ?ps) (Some ''u'')"
  have p: "prevState ?ag = Some ?ps" by (simp add: example_agent_def)
  have e: "ensureState ?ag ''____________________'' \<lparr>files = Map.empty, stdout = []\<rparr>
      = (?ag, \<lparr>files = Map.empty, stdout = []\<rparr>)"
    by (simp add: ensureState_def example_agent_def)
  have a: "prevAction ?ag = Some ''u''" by (simp add: example_agent_def)
  have t: "choose_action (\<lambda>_. example_state None False True) ?ag
      '''' \<lparr>randrange = 50, choice = ''r''\<rparr> \<lparr>files = Map.empty, stdout = []\<rparr>
    = Inr (''u'',
           example_agent [''____________________'' \<mapsto> [- 1, 0, 0, 0, 0]]
             (Some (Q_State (\<lambda>_. example_state None False True) '''')) (Some ''u''),
           \<lparr>files = [''train/q.json'' \<mapsto> [''____________________'' \<mapsto> [- 1, 0, 0, 0, 0]]],
            stdout = []\<rparr>)"
    using newQValue_failure
    by (simp add: choose_action_def qLearning_def ensureState_def updateQTable_def
        findBestAction_def pickBestAction_def py_max_def ACTIONS_def actionToIndex_def
        save_def key_Q_State reward_Q_State compute_key_example reward_example
        example_agent_def fmul_def Let_def)
  from choose_action_selects_then_updates [OF p t] p e a
  show ?thesis
    by (auto simp: key_Q_State reward_Q_State compute_key_example reward_example)
qed

section \<open>The unassigned variable of qLearning\<close>

lemma py_max_not_unbound: "py_max xs \<noteq> Inl UnboundLocalError"
  by (simp add: py_max_def split: list.splits)

lemma py_index_not_unbound: "py_index xs v \<noteq> Inl UnboundLocalError"
  by (induction xs) (auto split: sum.splits)

lemma pickBestAction_not_unbound: "pickBestAction self k \<noteq> Inl UnboundLocalError"
  using py_max_not_unbound py_index_not_unbound
  by (auto simp: pickBestAction_def split: option.splits sum.splits)

lemma findBestAction_not_unbound: "findBestAction self k d \<noteq> Inl UnboundLocalError"
  using pickBestAction_not_unbound by (simp add: findBestAction_def Let_def)

lemma updateQTable_not_unbound:
  "updateQTable self ck ca pk pa R w \<noteq> Inl UnboundLocalError"
  using py_max_not_unbound
  by (auto simp: updateQTable_def Let_def split: option.splits sum.splits)

text \<open>
  In \<open>qLearning\<close> the variable \<open>action\<close> is assigned only under the guard: the function
  ends in UnboundLocalError exactly when the current key is not in the table.
\<close>

lemma qLearning_unbound_iff:
  "qLearning P self str d w = Inl UnboundLocalError \<longleftrightarrow> key (Q_State P str) \<notin> dom (q self)"
  using findBestAction_not_unbound [of self "key (Q_State P str)" d]
    updateQTable_not_unbound [of self]
  by (auto simp: qLearning_def Let_def split: option.splits sum.splits prod.splits)

text \<open>
  C10. \<open>choose_action\<close> calls \<open>qLearning\<close> on the agent that the get-or-initialise step
  leaves, whose table holds the current key; so the guard of \<open>qLearning\<close> holds there,
  that call does not end in UnboundLocalError, and neither does \<open>choose_action\<close>,
  whatever the agent, the state and the random draws.
\<close>

theorem choose_action_never_unbound:
  "key (Q_State P str) \<in> dom (q (fst (ensureState self (key (Q_State P str)) w))) \<and>
   qLearning P (fst (ensureState self (key (Q_State P str)) w)) str d
     (snd (ensureState self (key (Q_State P str)) w)) \<noteq> Inl UnboundLocalError \<and>
   choose_action P self str d w \<noteq> Inl UnboundLocalError"
proof -
  let ?k = "key (Q_State P str)"
  have dom: "?k \<in> dom (q (fst (ensureState self ?k w)))" by (rule ensureState_dom)
  then have ql: "qLearning P (fst (ensureState self ?k w)) str d (snd (ensureState self ?k w))
      \<noteq> Inl UnboundLocalError"
    by (simp add: qLearning_unbound_iff)
  have "choose_action P self str d w \<noteq> Inl UnboundLocalError"
    using ql findBestAction_not_unbound [of "fst (ensureState self ?k w)" ?k d]
    by (auto simp: choose_action_def Let_def split: option.splits sum.splits prod.splits)
  with dom ql show ?thesis by blast
qed

theorem choose_action_never_unbound_witness:
  "qLearning (\<lambda>_. example_state (Some ''c'') False False)
     (example_agent [''____________________'' \<mapsto> [0, 0, 0, 0, 0]]
        (Some (Q_State (\<lambda>_. example_state None False False) '''')) (Some ''u''))
     '''' \<lparr>randrange = 50, choice = ''r''\<rparr> \<lparr>files = Map.empty, stdout = []\<rparr>
     = Inl UnboundLocalError \<and>
   choose_action (\<lambda>_. example_state (Some ''c'') False False)
     (example_agent [''____________________'' \<mapsto> [0, 0, 0, 0, 0]]
        (Some (Q_State (\<lambda>_. example_state None False False) '''')) (Some ''u''))
     '''' \<lparr>randrange = 50, choice = ''r''\<rparr> \<lparr>files = Map.empty, stdout = []\<rparr>
     \<noteq> Inl UnboundLocalError"
  using choose_action_never_unbound [of "\<lambda>_. example_state (Some ''c'') False False" "''''"
      "example_agent [''____________________'' \<mapsto> [0, 0, 0, 0, 0]]
        (Some (Q_State (\<lambda>_. example_state None False False) '''')) (Some ''u'')"
      "\<lparr>files = Map.empty, stdout = []\<rparr>" "\<lparr>randrange = 50, choice = ''r''\<rparr>"]
  by (simp add: qLearning_unbound_iff key_Q_State compute_key_example example_agent_def)

section \<open>Loading the table\<close>




section \<open>The value that the update writes\<close>

text \<open>
  The repeated update from 0, with the default parameters, reward 10 and best next value
  0, is followed by evaluation: on binary64 values one update is \<open>td_step\<close>
  (\<open>newQValue_td_step\<close>), \<open>climb\<close> checks that each of the first 328 updates rises
  strictly and returns the value they reach (\<open>climb_327\<close>, \<open>climb_sound\<close>), and that
  value is a fixed point of the update (\<open>td_step_fixed\<close>).
\<close>

lemma repeated_add:
  "repeated a g R m (i + j) v = repeated a g R m j (repeated a g R m i v)"
  by (induction i arbitrary: v) simp_all

lemma one_minus_alpha: "fsub 1 (fl (1 / 10)) = 8106479329266893 / 9007199254740992"
  by (simp add: farith fl_eval)

lemma update_target: "fmul (fl (1 / 10)) (fadd 10 (fmul (fl (6 / 10)) 0)) = 1"
  by (simp add: farith fl_eval)

lemma newQValue_td_step:
  assumes "fl v = v"
  shows "newQValue (fl (1 / 10)) (fl (6 / 10)) v 10 0 = td_step v"
proof -
  have 1: "fl 1 = 1" using fl_int [of 1] by simp
  have "fl (8106479329266893 / 9007199254740992) = fl (fsub 1 (fl (1 / 10)))"
    by (simp only: one_minus_alpha)
  also have "\<dots> = fsub 1 (fl (1 / 10))" by (simp only: fsub_def fl_idem)
  finally have 2: "fl (8106479329266893 / 9007199254740992)
      = 8106479329266893 / 9007199254740992" by (simp only: one_minus_alpha)
  show ?thesis
    unfolding newQValue_def update_target one_minus_alpha
    unfolding fadd_def fmul_def td_step_def 1 2 assms fl_idem ..
qed

lemma fl_td_step: "fl (td_step v) = td_step v"
  by (simp only: td_step_def fl_idem)

lemma climb_sound:
  "fl v = v \<Longrightarrow> climb n v (td_step v) = Some z \<Longrightarrow>
   (\<forall>i\<le>n. repeated (fl (1 / 10)) (fl (6 / 10)) 10 0 i v
           < repeated (fl (1 / 10)) (fl (6 / 10)) 10 0 (Suc i) v) \<and>
   repeated (fl (1 / 10)) (fl (6 / 10)) 10 0 (Suc n) v = z"
proof (induction n arbitrary: v)
  case 0
  let ?r = "repeated (fl (1 / 10)) (fl (6 / 10)) 10 0"
  from "0.prems"(2) have lt: "v < td_step v" and z: "td_step v = z"
    by (simp_all split: if_splits)
  have r1: "?r (Suc 0) v = td_step v"
    by (simp only: repeated.simps newQValue_td_step [OF "0.prems"(1)])
  have r0: "?r 0 v = v" by (simp only: repeated.simps)
  from lt have "?r 0 v < ?r (Suc 0) v" by (simp only: r0 r1)
  moreover have "?r (Suc 0) v = z" by (simp only: r1 z)
  ultimately show ?case by simp
next
  case (Suc n)
  let ?r = "repeated (fl (1 / 10)) (fl (6 / 10)) 10 0"
  have rS: "?r (Suc i) v = ?r i (td_step v)" for i
    by (simp only: repeated.simps newQValue_td_step [OF Suc.prems(1)])
  have r0: "?r 0 x = x" for x by (simp only: repeated.simps)
  from Suc.prems(2) have lt: "v < td_step v"
    and c: "climb n (td_step v) (td_step (td_step v)) = Some z"
    by (simp_all split: if_splits)
  from Suc.IH [OF fl_td_step c] have ih:
    "\<forall>i\<le>n. ?r i (td_step v) < ?r (Suc i) (td_step v)"
    "?r (Suc n) (td_step v) = z" by blast+
  have "?r i v < ?r (Suc i) v" if "i \<le> Suc n" for i
  proof (cases i)
    case 0
    from lt show ?thesis unfolding 0 by (simp only: rS r0)
  next
    case (Suc j)
    with that have "j \<le> n" by simp
    with ih(1) have "?r j (td_step v) < ?r (Suc j) (td_step v)" by blast
    then show ?thesis unfolding Suc by (simp only: rS)
  qed
  moreover have "?r (Suc (Suc n)) v = z"
    using ih(2) by (simp only: rS)
  ultimately show ?case by blast
qed

lemma chain_le:
  fixes f :: "nat \<Rightarrow> real"
  assumes "\<forall>i<N. f i < f (Suc i)"
  shows "i \<le> N \<Longrightarrow> f i \<le> f N"
proof (induction "N - i" arbitrary: i)
  case 0
  then show ?case by simp
next
  case (Suc d)
  then have "i < N" "d = N - Suc i" "Suc i \<le> N" by simp_all
  with Suc.hyps(1) [of "Suc i"] assms show ?case by fastforce
qed

lemma climb_numeral:
  "climb (numeral k) v v' = (if v < v' then climb (pred_numeral k) v' (td_step v') else None)"
  by (simp add: numeral_eq_Suc)

lemma climb_327: "climb 327 0 (td_step 0) = Some (5629499534213117 / 562949953421312)"
  by (simp add: climb_numeral td_step_def fl_eval)

lemma td_step_fixed:
  "td_step (5629499534213117 / 562949953421312) = 5629499534213117 / 562949953421312"
  by (simp add: td_step_def fl_eval)

lemma repeated_rises:
  "\<forall>n<328. repeated (fl (1 / 10)) (fl (6 / 10)) 10 0 n 0
            < repeated (fl (1 / 10)) (fl (6 / 10)) 10 0 (Suc n) 0"
  and repeated_328:
  "repeated (fl (1 / 10)) (fl (6 / 10)) 10 0 328 0 = 5629499534213117 / 562949953421312"
proof -
  from climb_sound [OF fl_0 climb_327]
  show "\<forall>n<328. repeated (fl (1 / 10)) (fl (6 / 10)) 10 0 n 0
            < repeated (fl (1 / 10)) (fl (6 / 10)) 10 0 (Suc n) 0"
    and "repeated (fl (1 / 10)) (fl (6 / 10)) 10 0 328 0 = 5629499534213117 / 562949953421312"
    by (simp_all add: less_Suc_eq_le [symmetric] del: repeated.simps)
qed

lemma fl_fixed: "fl (5629499534213117 / 562949953421312) = 5629499534213117 / 562949953421312"
  using fl_td_step [of "5629499534213117 / 562949953421312"] by (simp only: td_step_fixed)

lemma repeated_fixed:
  "repeated (fl (1 / 10)) (fl (6 / 10)) 10 0 n (5629499534213117 / 562949953421312)
     = 5629499534213117 / 562949953421312"
proof (induction n)
  case 0
  show ?case by (simp only: repeated.simps)
next
  case (Suc n)
  then show ?case
    by (simp only: repeated.simps newQValue_td_step [OF fl_fixed] td_step_fixed)
qed

lemma repeated_from_328:
  assumes "328 \<le> n"
  shows "repeated (fl (1 / 10)) (fl (6 / 10)) 10 0 n 0 = 5629499534213117 / 562949953421312"
proof -
  from assms have "n = 328 + (n - 328)" by simp
  then have "repeated (fl (1 / 10)) (fl (6 / 10)) 10 0 n 0
      = repeated (fl (1 / 10)) (fl (6 / 10)) 10 0 (n - 328)
          (repeated (fl (1 / 10)) (fl (6 / 10)) 10 0 328 0)"
    using repeated_add [of "fl (1 / 10)" "fl (6 / 10)" 10 0 328 "n - 328" 0] by simp
  then show ?thesis by (simp only: repeated_328 repeated_fixed)
qed

lemma repeated_below_10: "repeated (fl (1 / 10)) (fl (6 / 10)) 10 0 n 0 < 10"
proof (cases "328 \<le> n")
  case True
  have "(5629499534213117 / 562949953421312 :: real) < 10" by simp
  then show ?thesis by (simp only: repeated_from_328 [OF True])
next
  case False
  then have "n \<le> 328" by simp
  from chain_le [OF repeated_rises this]
  have "repeated (fl (1 / 10)) (fl (6 / 10)) 10 0 n 0 \<le> 5629499534213117 / 562949953421312"
    by (simp only: repeated_328)
  then show ?thesis by simp
qed

text \<open>
  C3, as the claim states it, fails: the code computes in binary64, and there the
  repeated update does not rise for ever. From 0, with the default parameters, reward 10
  and best next value 0, the 329th update returns the value that the 328th left.
\<close>

theorem repeated_update_stalls:
  "repeated (fl (1 / 10)) (fl (6 / 10)) 10 0 329 0
     = repeated (fl (1 / 10)) (fl (6 / 10)) 10 0 328 0"
proof -
  have "repeated (fl (1 / 10)) (fl (6 / 10)) 10 0 329 0 = 5629499534213117 / 562949953421312"
    by (rule repeated_from_328) simp
  moreover
  have "repeated (fl (1 / 10)) (fl (6 / 10)) 10 0 328 0 = 5629499534213117 / 562949953421312"
    by (rule repeated_from_328) simp
  ultimately show ?thesis by (simp only:)
qed

lemma updateQTable_writes:
  assumes "updateQTable self ck ca pk pa R w = Inr (self', w')"
  shows "\<exists>ps a row cur. prevState self = Some ps \<and>
           actionToIndex (prevAction self) = Some a \<and>
           q self (key ps) = Some row \<and> a < length row \<and>
           q self ck = Some cur \<and> cur \<noteq> [] \<and>
           q self' (key ps) = Some (row[a :=
             fadd (fmul (fsub 1 (alpha self)) (row ! a))
               (fmul (alpha self) (fadd R (fmul (gamma self) (Max (set cur)))))])"
proof -
  from assms obtain ps a row cur m where f: "prevState self = Some ps"
    "actionToIndex (prevAction self) = Some a" "q self (key ps) = Some row" "a < length row"
    "q self ck = Some cur" "py_max cur = Inr m"
    "q self' (key ps) = Some (row[a := newQValue (alpha self) (gamma self) (row ! a) R m])"
    by (auto simp: updateQTable_def save_def Let_def
        split: option.splits sum.splits if_splits)
  from f(6) have ne: "cur \<noteq> []" by (auto simp: py_max_def)
  with f(6) have "m = Max (set cur)" by (simp add: py_max_Inr)
  with f ne show ?thesis unfolding newQValue_def by blast
qed

text \<open>
  C3, amended. An update that returns has written, at the prior key and the prior action's
  index, the binary64 value of \<open>(1 - alpha) * Q(s,a) + alpha * (R + gamma * max Q(s'))\<close>,
  each operation rounded to nearest; the agent's defaults are the binary64 values of 0.1
  and 0.6. One update of 0 with reward 10 and best next value 0 gives exactly 1. Repeated
  from 0 with these inputs, the value stays below 10, rises strictly during the first 328
  updates, and is \<open>10 - 3 / 2 ^ 49\<close> (9.999999999999995) from then on.
\<close>

theorem updateQTable_value:
  "(updateQTable self ck ca pk pa R w = Inr (self', w') \<longrightarrow>
      (\<exists>ps a row cur. prevState self = Some ps \<and>
         actionToIndex (prevAction self) = Some a \<and>
         q self (key ps) = Some row \<and> a < length row \<and>
         q self ck = Some cur \<and> cur \<noteq> [] \<and>
         q self' (key ps) = Some (row[a :=
           fadd (fmul (fsub 1 (alpha self)) (row ! a))
             (fmul (alpha self) (fadd R (fmul (gamma self) (Max (set cur)))))]))) \<and>
   (Agent_init t w0 = Inr (self0, w1) \<longrightarrow>
      alpha self0 = fl (1 / 10) \<and> gamma self0 = fl (6 / 10)) \<and>
   newQValue (fl (1 / 10)) (fl (6 / 10)) 0 10 0 = 1 \<and>
   (\<forall>n. repeated (fl (1 / 10)) (fl (6 / 10)) 10 0 n 0 < 10) \<and>
   (\<forall>n<328. repeated (fl (1 / 10)) (fl (6 / 10)) 10 0 n 0
            < repeated (fl (1 / 10)) (fl (6 / 10)) 10 0 (Suc n) 0) \<and>
   (\<forall>n\<ge>328. repeated (fl (1 / 10)) (fl (6 / 10)) 10 0 n 0 = 10 - 3 / 2 ^ 49)"
proof -
  have "Agent_init t w0 = Inr (self0, w1) \<longrightarrow>
      alpha self0 = fl (1 / 10) \<and> gamma self0 = fl (6 / 10)"
    by (auto simp: Agent_init_def load_def Let_def split: option.splits if_splits)
  moreover have "(5629499534213117 / 562949953421312 :: real) = 10 - 3 / 2 ^ 49" by simp
  then have "\<forall>n\<ge>328. repeated (fl (1 / 10)) (fl (6 / 10)) 10 0 n 0 = 10 - 3 / 2 ^ 49"
    using repeated_from_328 by (simp only:) blast
  ultimately show ?thesis
    using updateQTable_writes [of self ck ca pk pa R w self' w'] newQValue_first
      repeated_below_10 repeated_rises by blast
qed

theorem updateQTable_value_witness:
  "updateQTable
     (example_agent [''____________________'' \<mapsto> [0, 0, 0, 0, 0], ''b'' \<mapsto> [0, 0, 0, 0, 0]]
        (Some (Q_State (\<lambda>_. example_state None False False) '''')) (Some ''l''))
     ''b'' ''u'' ''____________________'' (Some ''l'') 10
     \<lparr>files = Map.empty, stdout = []\<rparr>
   = Inr (example_agent
            [''____________________'' \<mapsto> [0, 0, 1, 0, 0], ''b'' \<mapsto> [0, 0, 0, 0, 0]]
            (Some (Q_State (\<lambda>_. example_state None False False) '''')) (Some ''l''),
          \<lparr>files = [''train/q.json'' \<mapsto>
                      [''____________________'' \<mapsto> [0, 0, 1, 0, 0], ''b'' \<mapsto> [0, 0, 0, 0, 0]]],
           stdout = []\<rparr>) \<and>
   [0, 0, 1, 0, 0]
     = [0, 0, 0, 0, 0][2 := fadd (fmul (fsub 1 (fl (1 / 10))) 0)
                              (fmul (fl (1 / 10)) (fadd 10 (fmul (fl (6 / 10)) 0)))] \<and>
   repeated (fl (1 / 10)) (fl (6 / 10)) 10 0 1 0 = 1 \<and>
   repeated (fl (1 / 10)) (fl (6 / 10)) 10 0 0 0
     < repeated (fl (1 / 10)) (fl (6 / 10)) 10 0 (Suc 0) 0 \<and>
   repeated (fl (1 / 10)) (fl (6 / 10)) 10 0 400 0 = 10 - 3 / 2 ^ 49"
proof -
  let ?ps = "Q_State (\<lambda>_. example_state None False False) ''''"
  let ?k = "''____________________''"
  let ?ag = "example_agent [?k \<mapsto> [0, 0, 0, 0, 0], ''b'' \<mapsto> [0, 0, 0, 0, 0]] (Some ?ps)
      (Some ''l'')"
  let ?ag' = "example_agent [?k \<mapsto> [0, 0, 1, 0, 0], ''b'' \<mapsto> [0, 0, 0, 0, 0]] (Some ?ps)
      (Some ''l'')"
  let ?w = "\<lparr>files = Map.empty, stdout = []\<rparr>"
  let ?w' = "\<lparr>files = [''train/q.json'' \<mapsto> [?k \<mapsto> [0, 0, 1, 0, 0], ''b'' \<mapsto> [0, 0, 0, 0, 0]]],
      stdout = []\<rparr>"
  let ?r = "repeated (fl (1 / 10)) (fl (6 / 10)) 10 0"
  have ok: "updateQTable ?ag ''b'' ''u'' ?k (Some ''l'') 10 ?w = Inr (?ag', ?w')"
    using newQValue_first
    by (simp add: updateQTable_def example_agent_def actionToIndex_def py_max_def save_def
        key_Q_State compute_key_example Let_def fun_upd_twist)
  note v = updateQTable_value [of ?ag "''b''" "''u''" ?k "Some ''l''" 10 ?w ?ag' ?w'
      None ?w ?ag ?w]
  from v ok obtain ps a row cur where f: "prevState ?ag = Some ps"
    "actionToIndex (prevAction ?ag) = Some a" "q ?ag (key ps) = Some row"
    "q ?ag ''b'' = Some cur"
    "q ?ag' (key ps) = Some (row[a :=
       fadd (fmul (fsub 1 (alpha ?ag)) (row ! a))
         (fmul (alpha ?ag) (fadd 10 (fmul (gamma ?ag) (Max (set cur)))))])"
    by blast
  from f(1) have ps: "ps = ?ps" by (simp add: example_agent_def)
  from f(2) have a: "a = 2" by (simp add: example_agent_def actionToIndex_def)
  from f(3) have row: "row = [0, 0, 0, 0, 0]"
    by (simp add: ps example_agent_def key_Q_State compute_key_example)
  from f(4) have cur: "cur = [0, 0, 0, 0, 0]" by (simp add: example_agent_def)
  have al: "alpha ?ag = fl (1 / 10)" "gamma ?ag = fl (6 / 10)"
    by (simp_all add: example_agent_def)
  have m: "Max (set [0, 0, 0, 0, 0 :: real]) = 0" by simp
  have k: "q ?ag' (key ?ps) = Some [0, 0, 1, 0, 0]"
    by (simp add: example_agent_def key_Q_State compute_key_example)
  from f(5) have 1: "[0, 0, 1, 0, 0]
     = [0, 0, 0, 0, 0][2 := fadd (fmul (fsub 1 (fl (1 / 10))) 0)
                              (fmul (fl (1 / 10)) (fadd 10 (fmul (fl (6 / 10)) 0)))]"
    unfolding ps a row cur al m k by simp
  from v have "newQValue (fl (1 / 10)) (fl (6 / 10)) 0 10 0 = 1" by blast
  then have 2: "?r 1 0 = 1" by (simp only: One_nat_def repeated.simps)
  from v have "\<forall>n<328. ?r n 0 < ?r (Suc n) 0" by blast
  moreover have "(0::nat) < 328" by simp
  ultimately have 3: "?r 0 0 < ?r (Suc 0) 0" by blast
  from v have "\<forall>n\<ge>328. ?r n 0 = 10 - 3 / 2 ^ 49" by blast
  moreover have "(328::nat) \<le> 400" by simp
  ultimately have 4: "?r 400 0 = 10 - 3 / 2 ^ 49" by blast
  from ok 1 2 3 4 show ?thesis by (simp only:)
qed

end
